theory Spec2Isabelle
  imports Main
begin

section \<open>The email service: data model\<close>

text \<open>
  The repository holds two versions of the class \<open>EmailService\<close>: \<open>src/emailService.js\<close>
  (a fixed roster of two mock providers, cache key built inline with the separator
  \<open>-\<close>) and \<open>src/unnamed/part_000\<close> (the roster is the constructor's argument, cache
  key built by \<open>generateCacheKey\<close> with the separator \<open>:\<close>). The control flow of
  \<open>sendEmail\<close> is the same in both. The embedding follows \<open>part_000\<close>, the more general
  one, and gives the inline key of \<open>emailService.js\<close> as \<open>cacheKey_inline\<close>.

  The program is single-threaded JavaScript. The embedding runs the calls of
  \<open>sendEmail\<close> one after the other (each awaited before the next starts) and treats
  the timer callback of \<open>startRateLimitWindow\<close> as one more operation between them.
\<close>

text \<open>
  A JavaScript number used as an array index. \<open>switchProvider\<close> computes
  \<open>(i + 1) % length\<close>, which is \<open>NaN\<close> for an empty roster, so the index is either a
  natural number or \<open>NaN\<close>.
\<close>

datatype jsnum = Num nat | NaN

text \<open>
  A provider object. \<open>name\<close> is what \<open>constructor.name\<close> reads (\<open>Provider1\<close>,
  \<open>Provider2\<close>). The providers of the source decide by \<open>Math.random\<close> whether \<open>send\<close>
  resolves or rejects; here the provider carries its own sequence of outcomes:
  \<open>send p n email subject body\<close> tells whether the call number \<open>n\<close> (counted from 0)
  of this provider resolves (\<open>True\<close>) or rejects (\<open>False\<close>), and \<open>calls\<close> counts the
  calls made so far. A \<open>send\<close> whose promise never settles is outside the model.
\<close>

record provider =
  name :: string
  send :: "nat \<Rightarrow> string \<Rightarrow> string \<Rightarrow> string \<Rightarrow> bool"
  calls :: nat

text \<open>The only exception raised inside \<open>sendEmail\<close> by the service's own code: reading
  \<open>send\<close> of \<open>undefined\<close> when the index names no provider.\<close>

datatype error = TypeError

text \<open>The texts passed to \<open>updateStatus\<close> and to \<open>log\<close>, one constructor for each
  template string of \<open>part_000\<close>; the text of the provider's error is left out.\<close>

datatype status =
    DuplicateDetected
  | RateLimitExceeded
  | SentVia string
  | AttemptFailed nat
  | SwitchedProvider

datatype logmsg =
    LogDuplicate string
  | LogRateLimit
  | LogSent string nat
  | LogAttemptFailed nat
  | LogSwitched

text \<open>What one call does to the outside, in order: \<open>updateStatus(message, isError,
  displayDuration)\<close>, \<open>log(message)\<close>, a call of \<open>send\<close> on the provider at an index, and
  \<open>sleep(ms)\<close>.\<close>

datatype event =
    UpdateStatus status bool nat
  | Log logmsg
  | Invoke nat string string string
  | Sleep nat

record EmailService =
  providers :: "provider list"
  currentProviderIndex :: jsnum
  maxRetries :: nat
  retryDelay :: nat
  rateLimit :: nat
  emailCache :: "string set"
  sentEmails :: nat

section \<open>The operations\<close>

text \<open>\<open>constructor(providers)\<close> of \<open>part_000\<close>, lines 39-48. It has no \<open>throw\<close>: it
  returns for every argument.\<close>

definition constructor :: "provider list \<Rightarrow> error + EmailService" where
  "constructor ps =
     Inr \<lparr> providers = ps, currentProviderIndex = Num 0, maxRetries = 3,
           retryDelay = 1000, rateLimit = 2, emailCache = {}, sentEmails = 0 \<rparr>"

text \<open>The callback that \<open>startRateLimitWindow\<close> registers with \<open>setInterval\<close>, run every
  60000 ms.\<close>

definition startRateLimitWindow_callback :: "EmailService \<Rightarrow> EmailService" where
  "startRateLimitWindow_callback s = s\<lparr>sentEmails := 0\<rparr>"

text \<open>\<open>generateCacheKey\<close> of \<open>part_000\<close>, and the inline key of \<open>emailService.js\<close>, line
  33.\<close>

definition generateCacheKey :: "string \<Rightarrow> string \<Rightarrow> string \<Rightarrow> string" where
  "generateCacheKey email subject body = email @ '':'' @ subject @ '':'' @ body"

definition cacheKey_inline :: "string \<Rightarrow> string \<Rightarrow> string \<Rightarrow> string" where
  "cacheKey_inline email subject body = email @ ''-'' @ subject @ ''-'' @ body"

text \<open>\<open>switchProvider\<close>: \<open>(i + 1) % length\<close>. In JavaScript \<open>n % 0\<close> and every
  arithmetic on \<open>NaN\<close> give \<open>NaN\<close>.\<close>

definition switchProvider :: "EmailService \<Rightarrow> EmailService" where
  "switchProvider s =
     s\<lparr>currentProviderIndex :=
         (case currentProviderIndex s of
            NaN \<Rightarrow> NaN
          | Num i \<Rightarrow> if length (providers s) = 0 then NaN
                     else Num ((i + 1) mod length (providers s)))\<rparr>"

text \<open>\<open>this.providers[this.currentProviderIndex]\<close> followed by the read of \<open>.send\<close>: an
  index outside the array (or \<open>NaN\<close>) reads \<open>undefined\<close>, and \<open>undefined.send\<close> throws.\<close>

definition currentProvider :: "EmailService \<Rightarrow> error + provider" where
  "currentProvider s =
     (case currentProviderIndex s of
        NaN \<Rightarrow> Inl TypeError
      | Num i \<Rightarrow> if i < length (providers s) then Inr (providers s ! i)
                 else Inl TypeError)"

text \<open>The body of the \<open>try\<close> up to the end of the \<open>await\<close>: whether the call resolved,
  the state after it, and the provider call it made (none when the lookup threw).\<close>

definition trySend ::
  "EmailService \<Rightarrow> string \<Rightarrow> string \<Rightarrow> string \<Rightarrow> bool \<times> EmailService \<times> event list" where
  "trySend s email subject body =
     (case currentProviderIndex s of
        NaN \<Rightarrow> (False, s, [])
      | Num i \<Rightarrow>
          (case currentProvider s of
             Inl e \<Rightarrow> (False, s, [])
           | Inr p \<Rightarrow>
               (send p (calls p) email subject body,
                s\<lparr>providers := (providers s)[i := p\<lparr>calls := calls p + 1\<rparr>]\<rparr>,
                [Invoke i email subject body])))"

text \<open>The provider name that the success status shows.\<close>

definition currentProviderName :: "EmailService \<Rightarrow> string" where
  "currentProviderName s = (case currentProvider s of Inl e \<Rightarrow> [] | Inr p \<Rightarrow> name p)"

text \<open>The loop \<open>for (let attempt = 1; attempt <= this.maxRetries; attempt++)\<close>, entered
  at a given \<open>attempt\<close>. The result tells whether the loop left through the \<open>return\<close>
  of the \<open>try\<close> (\<open>True\<close>) or ran out of attempts (\<open>False\<close>).\<close>

function retryLoop ::
  "EmailService \<Rightarrow> string \<Rightarrow> string \<Rightarrow> string \<Rightarrow> nat \<Rightarrow> bool \<times> EmailService \<times> event list" where
  "retryLoop s email subject body attempt =
     (if attempt \<le> maxRetries s then
        (let r = trySend s email subject body; s1 = fst (snd r) in
         if fst r then
           (True, s1,
            snd (snd r) @
            [UpdateStatus (SentVia (currentProviderName s1)) False 2000,
             Log (LogSent email attempt)])
         else
           (let rest = retryLoop s1 email subject body (attempt + 1) in
            (fst rest, fst (snd rest),
             snd (snd r) @
             [UpdateStatus (AttemptFailed attempt) True 3000,
              Log (LogAttemptFailed attempt),
              Sleep (retryDelay s1 * 2 ^ (attempt - 1))] @
             snd (snd rest))))
      else (False, s, []))"
  by pat_completeness auto
termination
  by (relation "measure (\<lambda>(s, email, subject, body, attempt). maxRetries s + 1 - attempt)")
     (auto simp: trySend_def split: jsnum.split sum.split)

declare retryLoop.simps [simp del]

text \<open>\<open>sendEmail\<close>, \<open>part_000\<close> lines 56-97, with its recursive call after
  \<open>switchProvider\<close>.\<close>

function sendEmail ::
  "EmailService \<Rightarrow> string \<Rightarrow> string \<Rightarrow> string \<Rightarrow> EmailService \<times> event list" where
  "sendEmail s email subject body =
     (let cacheKey = generateCacheKey email subject body in
      if cacheKey \<in> emailCache s then
        (s, [UpdateStatus DuplicateDetected True 3000, Log (LogDuplicate cacheKey)])
      else
        (let s1 = s\<lparr>emailCache := insert cacheKey (emailCache s)\<rparr> in
         if sentEmails s1 \<ge> rateLimit s1 then
           (s1, [UpdateStatus RateLimitExceeded True 3000, Log LogRateLimit])
         else
           (let s2 = s1\<lparr>sentEmails := sentEmails s1 + 1\<rparr>;
                r = retryLoop s2 email subject body 1 in
            if fst r then (fst (snd r), snd (snd r))
            else
              (let s3 = switchProvider (fst (snd r));
                   again = sendEmail s3 email subject body in
               (fst again,
                snd (snd r) @
                [UpdateStatus SwitchedProvider True 3000, Log LogSwitched] @
                snd again)))))"
  by pat_completeness auto
termination
proof -
  have try_cache: "emailCache (fst (snd (trySend s email subject body))) = emailCache s"
    for s email subject body
    by (simp add: trySend_def split: jsnum.split sum.split)
  have loop_cache:
    "emailCache (fst (snd (retryLoop s email subject body attempt))) = emailCache s"
    for s email subject body attempt
  proof (induction s email subject body attempt rule: retryLoop.induct)
    case (1 s email subject body attempt)
    show ?case
      using "1.IH" by (subst retryLoop.simps) (simp add: Let_def try_cache)
  qed
  show ?thesis
    by (relation "measure (\<lambda>(s, email, subject, body).
          if generateCacheKey email subject body \<in> emailCache s then 0 else 1)")
       (auto simp: loop_cache switchProvider_def)
qed

declare sendEmail.simps [simp del]

section \<open>Running the service\<close>

text \<open>What reaches a service object after its construction: calls of \<open>sendEmail\<close> and
  firings of the window timer.\<close>

datatype op = SendEmail string string string | WindowReset

fun run :: "EmailService \<Rightarrow> op list \<Rightarrow> EmailService \<times> event list" where
  "run s [] = (s, [])"
| "run s (SendEmail email subject body # ops) =
     (let r = sendEmail s email subject body; rest = run (fst r) ops
      in (fst rest, snd r @ snd rest))"
| "run s (WindowReset # ops) = run (startRateLimitWindow_callback s) ops"

text \<open>A batch of calls of \<open>sendEmail\<close> with no timer firing between them, keeping the
  events of each call apart.\<close>

fun sendAll ::
  "EmailService \<Rightarrow> (string \<times> string \<times> string) list \<Rightarrow> EmailService \<times> event list list" where
  "sendAll s [] = (s, [])"
| "sendAll s ((email, subject, body) # ms) =
     (let r = sendEmail s email subject body; rest = sendAll (fst r) ms
      in (fst rest, snd r # snd rest))"

text \<open>\<open>new EmailService(providers)\<close>, when the constructor returns.\<close>

abbreviation newEmailService :: "provider list \<Rightarrow> EmailService" where
  "newEmailService ps \<equiv> projr (constructor ps)"

text \<open>\<open>new Provider1()\<close> and \<open>new Provider2()\<close>. \<open>send\<close> of either throws when
  \<open>Math.random() > 0.5\<close>; \<open>rnd n\<close> tells whether draw number \<open>n\<close> of that provider was
  at most 0.5, so that the call resolves.\<close>

definition Provider1 :: "(nat \<Rightarrow> bool) \<Rightarrow> provider" where
  "Provider1 rnd = \<lparr> name = ''Provider1'', send = (\<lambda>n email subject body. rnd n), calls = 0 \<rparr>"

definition Provider2 :: "(nat \<Rightarrow> bool) \<Rightarrow> provider" where
  "Provider2 rnd = \<lparr> name = ''Provider2'', send = (\<lambda>n email subject body. rnd n), calls = 0 \<rparr>"

text \<open>Two rosters: in the first, every call of the first provider fails and every call
  of the second succeeds; in the second, every call of either provider succeeds.\<close>

abbreviation failingThenWorking :: "provider list" where
  "failingThenWorking \<equiv> [Provider1 (\<lambda>n. False), Provider2 (\<lambda>n. True)]"

abbreviation bothWorking :: "provider list" where
  "bothWorking \<equiv> [Provider1 (\<lambda>n. True), Provider2 (\<lambda>n. True)]"

section \<open>Reading a trace\<close>

fun isInvoke :: "event \<Rightarrow> bool" where
  "isInvoke (Invoke i email subject body) = True"
| "isInvoke _ = False"

text \<open>The provider calls made with one given triple of arguments.\<close>

fun isInvokeOf :: "string \<Rightarrow> string \<Rightarrow> string \<Rightarrow> event \<Rightarrow> bool" where
  "isInvokeOf email subject body (Invoke i email' subject' body') =
     (email' = email \<and> subject' = subject \<and> body' = body)"
| "isInvokeOf email subject body _ = False"

text \<open>The status texts shown, the delays slept and the numbers of the failed attempts,
  each in order.\<close>

fun statuses :: "event list \<Rightarrow> status list" where
  "statuses [] = []"
| "statuses (UpdateStatus m isError d # tr) = m # statuses tr"
| "statuses (_ # tr) = statuses tr"

fun sleeps :: "event list \<Rightarrow> nat list" where
  "sleeps [] = []"
| "sleeps (Sleep ms # tr) = ms # sleeps tr"
| "sleeps (_ # tr) = sleeps tr"

fun failedAttempts :: "event list \<Rightarrow> nat list" where
  "failedAttempts [] = []"
| "failedAttempts (UpdateStatus (AttemptFailed k) isError d # tr) = k # failedAttempts tr"
| "failedAttempts (_ # tr) = failedAttempts tr"

text \<open>The index names a provider of the roster.\<close>

definition validIndex :: "EmailService \<Rightarrow> bool" where
  "validIndex s =
     (case currentProviderIndex s of NaN \<Rightarrow> False | Num i \<Rightarrow> i < length (providers s))"

text \<open>The key of a message given as a triple, and whether the events of a call
  include a provider call.\<close>

definition cacheKeyOf :: "string \<times> string \<times> string \<Rightarrow> string" where
  "cacheKeyOf m = (case m of (email, subject, body) \<Rightarrow> generateCacheKey email subject body)"

definition dispatched :: "event list \<Rightarrow> bool" where
  "dispatched tr = list_ex isInvoke tr"

text \<open>The two events of the duplicate branch and of the rate-limit branch.\<close>

definition duplicateEvents :: "string \<Rightarrow> string \<Rightarrow> string \<Rightarrow> event list" where
  "duplicateEvents email subject body =
     [UpdateStatus DuplicateDetected True 3000,
      Log (LogDuplicate (generateCacheKey email subject body))]"

definition rateLimitEvents :: "event list" where
  "rateLimitEvents = [UpdateStatus RateLimitExceeded True 3000, Log LogRateLimit]"

section \<open>Basic facts\<close>

lemma trySend_fields [simp]:
  "maxRetries (fst (snd (trySend s email subject body))) = maxRetries s"
  "retryDelay (fst (snd (trySend s email subject body))) = retryDelay s"
  "rateLimit (fst (snd (trySend s email subject body))) = rateLimit s"
  "emailCache (fst (snd (trySend s email subject body))) = emailCache s"
  "sentEmails (fst (snd (trySend s email subject body))) = sentEmails s"
  "currentProviderIndex (fst (snd (trySend s email subject body))) = currentProviderIndex s"
  "length (providers (fst (snd (trySend s email subject body)))) = length (providers s)"
  by (simp_all add: trySend_def split: jsnum.split sum.split)

lemma retryLoop_fields [simp]:
  "maxRetries (fst (snd (retryLoop s email subject body attempt))) = maxRetries s"
  "retryDelay (fst (snd (retryLoop s email subject body attempt))) = retryDelay s"
  "rateLimit (fst (snd (retryLoop s email subject body attempt))) = rateLimit s"
  "emailCache (fst (snd (retryLoop s email subject body attempt))) = emailCache s"
  "sentEmails (fst (snd (retryLoop s email subject body attempt))) = sentEmails s"
  "currentProviderIndex (fst (snd (retryLoop s email subject body attempt))) =
     currentProviderIndex s"
  "length (providers (fst (snd (retryLoop s email subject body attempt)))) =
     length (providers s)"
proof (induction s email subject body attempt rule: retryLoop.induct)
  case (1 s email subject body attempt)
  {
    case 1 show ?case using "1.IH"(1) by (subst retryLoop.simps) (simp add: Let_def)
  next
    case 2 show ?case using "1.IH"(2) by (subst retryLoop.simps) (simp add: Let_def)
  next
    case 3 show ?case using "1.IH"(3) by (subst retryLoop.simps) (simp add: Let_def)
  next
    case 4 show ?case using "1.IH"(4) by (subst retryLoop.simps) (simp add: Let_def)
  next
    case 5 show ?case using "1.IH"(5) by (subst retryLoop.simps) (simp add: Let_def)
  next
    case 6 show ?case using "1.IH"(6) by (subst retryLoop.simps) (simp add: Let_def)
  next
    case 7 show ?case using "1.IH"(7) by (subst retryLoop.simps) (simp add: Let_def)
  }
qed

lemma switchProvider_fields [simp]:
  "maxRetries (switchProvider s) = maxRetries s"
  "retryDelay (switchProvider s) = retryDelay s"
  "rateLimit (switchProvider s) = rateLimit s"
  "emailCache (switchProvider s) = emailCache s"
  "sentEmails (switchProvider s) = sentEmails s"
  "providers (switchProvider s) = providers s"
  by (simp_all add: switchProvider_def)

text \<open>\<open>sendEmail\<close> without its recursion: the call made after \<open>switchProvider\<close> finds
  the key that this call has just added, and takes the duplicate branch.\<close>

lemma sendEmail_unfold:
  "sendEmail s email subject body =
     (if generateCacheKey email subject body \<in> emailCache s then
        (s, duplicateEvents email subject body)
      else if rateLimit s \<le> sentEmails s then
        (s\<lparr>emailCache := insert (generateCacheKey email subject body) (emailCache s)\<rparr>,
         rateLimitEvents)
      else
        (let r = retryLoop
                   (s\<lparr>emailCache := insert (generateCacheKey email subject body) (emailCache s),
                      sentEmails := sentEmails s + 1\<rparr>) email subject body 1
         in if fst r then (fst (snd r), snd (snd r))
            else (switchProvider (fst (snd r)),
                  snd (snd r) @ [UpdateStatus SwitchedProvider True 3000, Log LogSwitched] @
                  duplicateEvents email subject body)))"
proof -
  have dup: "sendEmail t email subject body = (t, duplicateEvents email subject body)"
    if "generateCacheKey email subject body \<in> emailCache t" for t
    using that by (subst sendEmail.simps) (simp add: duplicateEvents_def)
  show ?thesis
    by (subst sendEmail.simps) (simp add: Let_def dup duplicateEvents_def rateLimitEvents_def)
qed

text \<open>The equations that evaluate a call on a concrete service.\<close>

lemmas eval_defs =
  sendEmail_unfold constructor_def Provider1_def Provider2_def generateCacheKey_def
  retryLoop.simps trySend_def currentProvider_def currentProviderName_def Let_def
  duplicateEvents_def rateLimitEvents_def switchProvider_def startRateLimitWindow_callback_def

lemma sendEmail_fields [simp]:
  "maxRetries (fst (sendEmail s email subject body)) = maxRetries s"
  "retryDelay (fst (sendEmail s email subject body)) = retryDelay s"
  "rateLimit (fst (sendEmail s email subject body)) = rateLimit s"
  "length (providers (fst (sendEmail s email subject body))) = length (providers s)"
  by (simp_all add: sendEmail_unfold Let_def)

lemma sendEmail_emailCache:
  "emailCache (fst (sendEmail s email subject body)) =
     insert (generateCacheKey email subject body) (emailCache s)"
  by (auto simp add: sendEmail_unfold Let_def)

lemma sendEmail_sentEmails:
  "sentEmails (fst (sendEmail s email subject body)) =
     (if generateCacheKey email subject body \<in> emailCache s \<or> rateLimit s \<le> sentEmails s
      then sentEmails s else sentEmails s + 1)"
  by (simp add: sendEmail_unfold Let_def)

lemma callback_fields [simp]:
  "maxRetries (startRateLimitWindow_callback s) = maxRetries s"
  "retryDelay (startRateLimitWindow_callback s) = retryDelay s"
  "rateLimit (startRateLimitWindow_callback s) = rateLimit s"
  "emailCache (startRateLimitWindow_callback s) = emailCache s"
  "providers (startRateLimitWindow_callback s) = providers s"
  "currentProviderIndex (startRateLimitWindow_callback s) = currentProviderIndex s"
  "sentEmails (startRateLimitWindow_callback s) = 0"
  by (simp_all add: startRateLimitWindow_callback_def)

lemma run_fields [simp]:
  "maxRetries (fst (run s ops)) = maxRetries s"
  "rateLimit (fst (run s ops)) = rateLimit s"
  by (induction s ops rule: run.induct) (simp_all add: Let_def)

lemma run_emailCache_mono: "emailCache s \<subseteq> emailCache (fst (run s ops))"
  by (induction s ops rule: run.induct) (auto simp add: Let_def sendEmail_emailCache)

lemma run_sentEmails_le:
  "sentEmails s \<le> rateLimit s \<Longrightarrow> sentEmails (fst (run s ops)) \<le> rateLimit s"
  by (induction s ops rule: run.induct) (simp_all add: Let_def sendEmail_sentEmails)

lemma trySend_invokes:
  "length (filter (isInvokeOf e' su' b') (snd (snd (trySend s email subject body)))) \<le> 1"
  "(e', su', b') \<noteq> (email, subject, body) \<Longrightarrow>
     filter (isInvokeOf e' su' b') (snd (snd (trySend s email subject body))) = []"
  by (auto simp add: trySend_def split: jsnum.split sum.split)

lemma retryLoop_invokes:
  "length (filter (isInvokeOf e' su' b') (snd (snd (retryLoop s email subject body attempt))))
     \<le> maxRetries s + 1 - attempt"
proof (induction s email subject body attempt rule: retryLoop.induct)
  case (1 s email subject body attempt)
  show ?case
  proof (cases "attempt \<le> maxRetries s")
    case False
    then show ?thesis by (subst retryLoop.simps) simp
  next
    case True
    note le = this
    show ?thesis
    proof (cases "fst (trySend s email subject body)")
      case True
      with le trySend_invokes(1) [of e' su' b' s email subject body] show ?thesis
        by (subst retryLoop.simps) (simp add: Let_def)
    next
      case False
      with le "1.IH" [OF le refl refl False]
        trySend_invokes(1) [of e' su' b' s email subject body]
      show ?thesis
        by (subst retryLoop.simps) (simp add: Let_def)
    qed
  qed
qed

lemma retryLoop_invokes_other:
  "(e', su', b') \<noteq> (email, subject, body) \<Longrightarrow>
     filter (isInvokeOf e' su' b') (snd (snd (retryLoop s email subject body attempt))) = []"
proof (induction s email subject body attempt rule: retryLoop.induct)
  case (1 s email subject body attempt)
  show ?case
    using "1.IH" "1.prems" trySend_invokes(2) [OF "1.prems", of s]
    by (subst retryLoop.simps) (simp add: Let_def)
qed

lemma duplicateEvents_invokes [simp]:
  "filter (isInvokeOf e' su' b') (duplicateEvents email subject body) = []"
  "filter isInvoke (duplicateEvents email subject body) = []"
  "filter (isInvokeOf e' su' b') rateLimitEvents = []"
  "filter isInvoke rateLimitEvents = []"
  by (simp_all add: duplicateEvents_def rateLimitEvents_def)

lemma sendEmail_invokes:
  "length (filter (isInvokeOf e' su' b') (snd (sendEmail s email subject body))) \<le> maxRetries s"
  using retryLoop_invokes [of e' su' b'
      "s\<lparr>emailCache := insert (generateCacheKey email subject body) (emailCache s),
         sentEmails := sentEmails s + 1\<rparr>" email subject body 1]
  by (simp add: sendEmail_unfold Let_def)

lemma sendEmail_invokes_other:
  "(e', su', b') \<noteq> (email, subject, body) \<Longrightarrow>
     filter (isInvokeOf e' su' b') (snd (sendEmail s email subject body)) = []"
  using retryLoop_invokes_other [of e' su' b' email subject body]
  by (simp add: sendEmail_unfold Let_def)

lemma sendEmail_cached:
  "generateCacheKey email subject body \<in> emailCache s \<Longrightarrow>
     sendEmail s email subject body = (s, duplicateEvents email subject body)"
  by (simp add: sendEmail_unfold)

lemma run_invokes_cached:
  "generateCacheKey email subject body \<in> emailCache s \<Longrightarrow>
     filter (isInvokeOf email subject body) (snd (run s ops)) = []"
proof (induction s ops rule: run.induct)
  case (1 s)
  then show ?case by simp
next
  case (2 s e su b ops)
  have in': "generateCacheKey email subject body \<in> emailCache (fst (sendEmail s e su b))"
    using "2.prems" by (simp add: sendEmail_emailCache)
  have here: "filter (isInvokeOf email subject body) (snd (sendEmail s e su b)) = []"
  proof (cases "(email, subject, body) = (e, su, b)")
    case True
    with "2.prems" show ?thesis by (simp add: sendEmail_cached)
  next
    case False
    then show ?thesis by (rule sendEmail_invokes_other)
  qed
  show ?case
    using "2.IH" [OF refl in'] here by (simp add: Let_def)
next
  case (3 s ops)
  then show ?case by simp
qed

lemma run_invokes:
  "length (filter (isInvokeOf email subject body) (snd (run s ops))) \<le> maxRetries s"
proof (induction s ops rule: run.induct)
  case (1 s)
  then show ?case by simp
next
  case (2 s e su b ops)
  show ?case
  proof (cases "(email, subject, body) = (e, su, b)")
    case True
    have "generateCacheKey email subject body \<in> emailCache (fst (sendEmail s e su b))"
      using True by (simp add: sendEmail_emailCache)
    then have "filter (isInvokeOf email subject body) (snd (run (fst (sendEmail s e su b)) ops)) = []"
      by (rule run_invokes_cached)
    then show ?thesis
      using sendEmail_invokes [of email subject body s e su b] by (simp add: Let_def)
  next
    case False
    then have "filter (isInvokeOf email subject body) (snd (sendEmail s e su b)) = []"
      by (rule sendEmail_invokes_other)
    then show ?thesis
      using "2.IH" [OF refl] by (simp add: Let_def)
  qed
next
  case (3 s ops)
  then show ?case by simp
qed

section \<open>Backoff delays\<close>

lemma sleeps_append: "sleeps (xs @ ys) = sleeps xs @ sleeps ys"
  by (induction xs rule: sleeps.induct) simp_all

lemma failedAttempts_append: "failedAttempts (xs @ ys) = failedAttempts xs @ failedAttempts ys"
  by (induction xs rule: failedAttempts.induct) simp_all

lemma trySend_quiet [simp]:
  "sleeps (snd (snd (trySend s email subject body))) = []"
  "failedAttempts (snd (snd (trySend s email subject body))) = []"
  by (simp_all add: trySend_def split: jsnum.split sum.split)

lemma duplicateEvents_quiet [simp]:
  "sleeps (duplicateEvents email subject body) = []"
  "failedAttempts (duplicateEvents email subject body) = []"
  "sleeps rateLimitEvents = []"
  "failedAttempts rateLimitEvents = []"
  by (simp_all add: duplicateEvents_def rateLimitEvents_def)

lemma retryLoop_backoff:
  "\<exists>n. n \<le> maxRetries s + 1 - attempt
       \<and> failedAttempts (snd (snd (retryLoop s email subject body attempt))) =
           [attempt..<attempt + n]
       \<and> sleeps (snd (snd (retryLoop s email subject body attempt))) =
           map (\<lambda>k. retryDelay s * 2 ^ (k - 1)) [attempt..<attempt + n]"
proof (induction s email subject body attempt rule: retryLoop.induct)
  case (1 s email subject body attempt)
  show ?case
  proof (cases "attempt \<le> maxRetries s")
    case False
    then have "retryLoop s email subject body attempt = (False, s, [])"
      by (subst retryLoop.simps) simp
    then have "failedAttempts (snd (snd (retryLoop s email subject body attempt))) =
                 [attempt..<attempt + 0]"
      and "sleeps (snd (snd (retryLoop s email subject body attempt))) =
             map (\<lambda>k. retryDelay s * 2 ^ (k - 1)) [attempt..<attempt + 0]"
      by simp_all
    moreover have "(0::nat) \<le> maxRetries s + 1 - attempt" by simp
    ultimately show ?thesis by blast
  next
    case True
    note le = this
    show ?thesis
    proof (cases "fst (trySend s email subject body)")
      case True
      with le have
        "snd (snd (retryLoop s email subject body attempt)) =
           snd (snd (trySend s email subject body)) @
           [UpdateStatus (SentVia (currentProviderName (fst (snd (trySend s email subject body)))))
              False 2000,
            Log (LogSent email attempt)]"
        by (subst retryLoop.simps) (simp add: Let_def)
      then have "failedAttempts (snd (snd (retryLoop s email subject body attempt))) =
                   [attempt..<attempt + 0]"
        and "sleeps (snd (snd (retryLoop s email subject body attempt))) =
               map (\<lambda>k. retryDelay s * 2 ^ (k - 1)) [attempt..<attempt + 0]"
        by (simp_all add: failedAttempts_append sleeps_append)
      moreover have "(0::nat) \<le> maxRetries s + 1 - attempt" by simp
      ultimately show ?thesis by blast
    next
      case False
      let ?s1 = "fst (snd (trySend s email subject body))"
      from "1.IH" [OF le refl refl False] obtain n where
        n: "n \<le> maxRetries ?s1 + 1 - (attempt + 1)"
        and fa: "failedAttempts (snd (snd (retryLoop ?s1 email subject body (attempt + 1)))) =
                   [attempt + 1..<attempt + 1 + n]"
        and sl: "sleeps (snd (snd (retryLoop ?s1 email subject body (attempt + 1)))) =
                   map (\<lambda>k. retryDelay ?s1 * 2 ^ (k - 1)) [attempt + 1..<attempt + 1 + n]"
        by blast
      from le False have tr:
        "snd (snd (retryLoop s email subject body attempt)) =
           snd (snd (trySend s email subject body)) @
           [UpdateStatus (AttemptFailed attempt) True 3000,
            Log (LogAttemptFailed attempt),
            Sleep (retryDelay ?s1 * 2 ^ (attempt - 1))] @
           snd (snd (retryLoop ?s1 email subject body (attempt + 1)))"
        by (subst retryLoop.simps) (simp add: Let_def)
      have up: "[attempt..<attempt + Suc n] = attempt # [attempt + 1..<attempt + 1 + n]"
        by (simp add: upt_conv_Cons)
      have fa': "failedAttempts (snd (snd (retryLoop s email subject body attempt))) =
           attempt # failedAttempts (snd (snd (retryLoop ?s1 email subject body (attempt + 1))))"
        by (subst tr) (simp add: failedAttempts_append)
      have sl': "sleeps (snd (snd (retryLoop s email subject body attempt))) =
           retryDelay s * 2 ^ (attempt - 1) #
           sleeps (snd (snd (retryLoop ?s1 email subject body (attempt + 1))))"
        by (subst tr) (simp add: sleeps_append)
      have rd: "retryDelay ?s1 = retryDelay s" by simp
      have "Suc n \<le> maxRetries s + 1 - attempt"
        using n le by simp
      moreover have "failedAttempts (snd (snd (retryLoop s email subject body attempt))) =
           [attempt..<attempt + Suc n]"
        by (simp only: fa' fa up)
      moreover have "sleeps (snd (snd (retryLoop s email subject body attempt))) =
           map (\<lambda>k. retryDelay s * 2 ^ (k - 1)) [attempt..<attempt + Suc n]"
        by (simp only: sl' sl up rd list.map)
      ultimately show ?thesis by blast
    qed
  qed
qed

lemma sendEmail_backoff:
  "\<exists>n\<le>maxRetries s.
      failedAttempts (snd (sendEmail s email subject body)) = [1..<Suc n]
      \<and> sleeps (snd (sendEmail s email subject body)) =
          map (\<lambda>k. retryDelay s * 2 ^ (k - 1)) [1..<Suc n]"
proof -
  let ?s2 = "s\<lparr>emailCache := insert (generateCacheKey email subject body) (emailCache s),
                sentEmails := sentEmails s + 1\<rparr>"
  from retryLoop_backoff [of ?s2 1 email subject body] obtain n where
    n: "n \<le> maxRetries s"
    and fa: "failedAttempts (snd (snd (retryLoop ?s2 email subject body 1))) = [1..<Suc n]"
    and sl: "sleeps (snd (snd (retryLoop ?s2 email subject body 1))) =
               map (\<lambda>k. retryDelay s * 2 ^ (k - 1)) [1..<Suc n]"
    by auto
  show ?thesis
  proof (cases "generateCacheKey email subject body \<in> emailCache s \<or> rateLimit s \<le> sentEmails s")
    case True
    then have "failedAttempts (snd (sendEmail s email subject body)) = [1..<Suc 0]"
      and "sleeps (snd (sendEmail s email subject body)) =
             map (\<lambda>k. retryDelay s * 2 ^ (k - 1)) [1..<Suc 0]"
      by (auto simp add: sendEmail_unfold)
    then show ?thesis by blast
  next
    case False
    then have "failedAttempts (snd (sendEmail s email subject body)) = [1..<Suc n]"
      and "sleeps (snd (sendEmail s email subject body)) =
             map (\<lambda>k. retryDelay s * 2 ^ (k - 1)) [1..<Suc n]"
      using fa sl
      by (simp_all add: sendEmail_unfold Let_def failedAttempts_append sleeps_append)
    with n show ?thesis by blast
  qed
qed

lemma backoff_strictly_increasing:
  assumes "0 < (d::nat)"
  shows "sorted_wrt (<) (map (\<lambda>k. d * 2 ^ (k - 1)) [1..<Suc n])"
proof -
  have "sorted_wrt (\<lambda>j k. d * 2 ^ (j - 1) < d * 2 ^ (k - 1)) [1..<Suc n]"
  proof (rule sorted_wrt_mono_rel [where P = "(<)"])
    fix j k :: nat
    assume "j \<in> set [1..<Suc n]" and "j < k"
    then have "j - 1 < k - 1" by auto
    then have "(2::nat) ^ (j - 1) < 2 ^ (k - 1)" by simp
    with assms show "d * 2 ^ (j - 1) < d * 2 ^ (k - 1)" by simp
  next
    show "sorted_wrt (<) [1..<Suc n]" by (rule sorted_wrt_upt)
  qed
  then show ?thesis by (simp add: sorted_wrt_map)
qed

text \<open>
  Claim C7. Within one call of \<open>sendEmail\<close> the failed attempts are numbered 1, 2, ...
  up to at most \<open>maxRetries\<close>, and after the failed attempt number \<open>k\<close> the call sleeps
  \<open>retryDelay * 2 ^ (k - 1)\<close> milliseconds: the list of delays slept is the list of
  failed attempts mapped through that formula. When \<open>retryDelay\<close> is positive the
  delays increase strictly. The delay is slept after every failed attempt, the last one
  included. (\<open>Math.pow\<close> works on floating-point numbers; for the constructor's values
  all the numbers involved are small integers, which it computes exactly.)
\<close>

theorem backoff_delay_formula:
  "(\<exists>n\<le>maxRetries s.
      failedAttempts (snd (sendEmail s email subject body)) = [1..<Suc n])
   \<and> sleeps (snd (sendEmail s email subject body)) =
       map (\<lambda>k. retryDelay s * 2 ^ (k - 1))
         (failedAttempts (snd (sendEmail s email subject body)))
   \<and> (0 < retryDelay s \<longrightarrow> sorted_wrt (<) (sleeps (snd (sendEmail s email subject body))))"
proof -
  from sendEmail_backoff [of s email subject body] obtain n where
    n: "n \<le> maxRetries s"
    and fa: "failedAttempts (snd (sendEmail s email subject body)) = [1..<Suc n]"
    and sl: "sleeps (snd (sendEmail s email subject body)) =
               map (\<lambda>k. retryDelay s * 2 ^ (k - 1)) [1..<Suc n]"
    by blast
  have "0 < retryDelay s \<longrightarrow> sorted_wrt (<) (sleeps (snd (sendEmail s email subject body)))"
    unfolding sl using backoff_strictly_increasing [of "retryDelay s" n] by blast
  moreover have "sleeps (snd (sendEmail s email subject body)) =
       map (\<lambda>k. retryDelay s * 2 ^ (k - 1))
         (failedAttempts (snd (sendEmail s email subject body)))"
    unfolding fa sl ..
  ultimately show ?thesis using n fa by blast
qed

theorem backoff_delay_formula_witness:
  "0 < retryDelay (newEmailService [Provider1 (\<lambda>n. False), Provider2 (\<lambda>n. True)])
   \<and> failedAttempts
       (snd (sendEmail (newEmailService [Provider1 (\<lambda>n. False), Provider2 (\<lambda>n. True)])
              ''a@x.com'' ''s'' ''b'')) = [1, 2, 3]
   \<and> sleeps
       (snd (sendEmail (newEmailService [Provider1 (\<lambda>n. False), Provider2 (\<lambda>n. True)])
              ''a@x.com'' ''s'' ''b'')) = [1000, 2000, 4000]
   \<and> sorted_wrt (<)
       (sleeps
         (snd (sendEmail (newEmailService [Provider1 (\<lambda>n. False), Provider2 (\<lambda>n. True)])
                ''a@x.com'' ''s'' ''b'')))"
proof -
  have h: "0 < retryDelay (newEmailService [Provider1 (\<lambda>n. False), Provider2 (\<lambda>n. True)])"
    by (simp add: constructor_def)
  have fa: "failedAttempts
       (snd (sendEmail (newEmailService [Provider1 (\<lambda>n. False), Provider2 (\<lambda>n. True)])
              ''a@x.com'' ''s'' ''b'')) = [1, 2, 3]"
    by (simp add: sendEmail_unfold constructor_def Provider1_def Provider2_def
        generateCacheKey_def retryLoop.simps trySend_def currentProvider_def Let_def
        duplicateEvents_def)
  have d: "map (\<lambda>k. retryDelay (newEmailService [Provider1 (\<lambda>n. False), Provider2 (\<lambda>n. True)])
                   * 2 ^ (k - 1)) [1, 2, 3] = [1000, 2000, 4000]"
    by (simp add: constructor_def)
  show ?thesis
    using h fa d
      backoff_delay_formula [of "newEmailService [Provider1 (\<lambda>n. False), Provider2 (\<lambda>n. True)]"
        "''a@x.com''" "''s''" "''b''"]
    by simp
qed

section \<open>Fallback rotation\<close>

text \<open>
  Claim C1. When the active provider fails all \<open>maxRetries\<close> attempts, \<open>sendEmail\<close>
  advances the index by one position, and the claim expects a new cycle of attempts on
  the new provider. Evaluated on the roster whose first provider always fails and whose
  second always succeeds: the index goes from 0 to 1, the first provider has been called
  three times, the second not once, and the events after the switch are those of the
  duplicate branch, since the recursive call finds the key this call added.
\<close>

theorem rotation_then_duplicate_branch:
  "currentProviderIndex (newEmailService failingThenWorking) = Num 0
   \<and> currentProviderIndex
        (fst (sendEmail (newEmailService failingThenWorking) ''a@x.com'' ''s'' ''b'')) = Num 1
   \<and> map calls
        (providers (fst (sendEmail (newEmailService failingThenWorking) ''a@x.com'' ''s'' ''b'')))
       = [3, 0]
   \<and> snd (sendEmail (newEmailService failingThenWorking) ''a@x.com'' ''s'' ''b'') =
       [Invoke 0 ''a@x.com'' ''s'' ''b'',
        UpdateStatus (AttemptFailed 1) True 3000, Log (LogAttemptFailed 1), Sleep 1000,
        Invoke 0 ''a@x.com'' ''s'' ''b'',
        UpdateStatus (AttemptFailed 2) True 3000, Log (LogAttemptFailed 2), Sleep 2000,
        Invoke 0 ''a@x.com'' ''s'' ''b'',
        UpdateStatus (AttemptFailed 3) True 3000, Log (LogAttemptFailed 3), Sleep 4000,
        UpdateStatus SwitchedProvider True 3000, Log LogSwitched,
        UpdateStatus DuplicateDetected True 3000, Log (LogDuplicate ''a@x.com:s:b'')]"
  by (simp add: eval_defs)

section \<open>Termination and the final status\<close>

text \<open>
  Claim C2. \<open>sendEmail\<close> is a total function, so every call returns. The claim expects
  the final status to be a success when some provider of the roster would succeed. On
  the roster whose second provider always succeeds, the statuses of the call end with
  the duplicate status, and no later call for the same message, before or after a
  window reset, shows a success status.
\<close>

theorem final_status_is_duplicate:
  "statuses (snd (sendEmail (newEmailService failingThenWorking) ''a@x.com'' ''s'' ''b'')) =
     [AttemptFailed 1, AttemptFailed 2, AttemptFailed 3, SwitchedProvider, DuplicateDetected]
   \<and> last (statuses
        (snd (sendEmail (newEmailService failingThenWorking) ''a@x.com'' ''s'' ''b''))) =
       DuplicateDetected
   \<and> statuses
        (snd (run (newEmailService failingThenWorking)
               [SendEmail ''a@x.com'' ''s'' ''b'', SendEmail ''a@x.com'' ''s'' ''b'',
                WindowReset, SendEmail ''a@x.com'' ''s'' ''b''])) =
       [AttemptFailed 1, AttemptFailed 2, AttemptFailed 3, SwitchedProvider,
        DuplicateDetected, DuplicateDetected, DuplicateDetected]"
  by (simp add: eval_defs)

section \<open>Idempotency\<close>

text \<open>
  Claim C3. When the key of the message is already in the cache, \<open>sendEmail\<close> returns
  the state it was given (cache, counter, index and providers unchanged) and its only
  events are the duplicate status and the log line that goes with it: no provider call.
  After any call of \<open>sendEmail\<close> the key is in the cache, so a second call with the
  same message right after the first is such a call, and the provider calls of the two
  calls together are those of the first call alone.
\<close>

theorem sendEmail_duplicate_noop:
  "(generateCacheKey email subject body \<in> emailCache s \<longrightarrow>
      sendEmail s email subject body = (s, duplicateEvents email subject body))
   \<and> statuses (duplicateEvents email subject body) = [DuplicateDetected]
   \<and> filter isInvoke (duplicateEvents email subject body) = []
   \<and> sendEmail (fst (sendEmail s email subject body)) email subject body =
       (fst (sendEmail s email subject body), duplicateEvents email subject body)
   \<and> filter isInvoke
        (snd (run s [SendEmail email subject body, SendEmail email subject body])) =
       filter isInvoke (snd (sendEmail s email subject body))"
proof -
  have "generateCacheKey email subject body \<in> emailCache (fst (sendEmail s email subject body))"
    by (simp add: sendEmail_emailCache)
  then have second: "sendEmail (fst (sendEmail s email subject body)) email subject body =
       (fst (sendEmail s email subject body), duplicateEvents email subject body)"
    by (rule sendEmail_cached)
  have both: "filter isInvoke
        (snd (run s [SendEmail email subject body, SendEmail email subject body])) =
       filter isInvoke (snd (sendEmail s email subject body))"
    by (simp add: Let_def second)
  have "statuses (duplicateEvents email subject body) = [DuplicateDetected]"
    by (simp add: duplicateEvents_def)
  with second both show ?thesis
    by (simp add: sendEmail_cached)
qed

theorem sendEmail_duplicate_noop_witness:
  "generateCacheKey ''a@x.com'' ''s'' ''b'' \<in>
     emailCache ((newEmailService bothWorking)\<lparr>emailCache := {''a@x.com:s:b''}\<rparr>)
   \<and> sendEmail ((newEmailService bothWorking)\<lparr>emailCache := {''a@x.com:s:b''}\<rparr>)
        ''a@x.com'' ''s'' ''b'' =
       ((newEmailService bothWorking)\<lparr>emailCache := {''a@x.com:s:b''}\<rparr>,
        [UpdateStatus DuplicateDetected True 3000, Log (LogDuplicate ''a@x.com:s:b'')])"
proof -
  have h: "generateCacheKey ''a@x.com'' ''s'' ''b'' \<in>
     emailCache ((newEmailService bothWorking)\<lparr>emailCache := {''a@x.com:s:b''}\<rparr>)"
    by (simp add: generateCacheKey_def)
  show ?thesis
    using h sendEmail_duplicate_noop [of "''a@x.com''" "''s''" "''b''"
        "(newEmailService bothWorking)\<lparr>emailCache := {''a@x.com:s:b''}\<rparr>"]
    by (simp add: duplicateEvents_def generateCacheKey_def)
qed

section \<open>The key is recorded first\<close>

text \<open>
  Claim C4. For a message whose key is not yet cached, the key is in the cache when
  \<open>sendEmail\<close> returns, whatever happened: a rate-limited call returns the given state
  with the key added and nothing else changed, and a call that passes the rate check
  runs its retry loop on a state that already holds the key. After any further
  operations on the service, a call with the same fields takes the duplicate branch.
\<close>

theorem fingerprint_recorded_first:
  assumes "generateCacheKey email subject body \<notin> emailCache s"
  shows "generateCacheKey email subject body \<in> emailCache (fst (sendEmail s email subject body))
   \<and> (rateLimit s \<le> sentEmails s \<longrightarrow>
        sendEmail s email subject body =
          (s\<lparr>emailCache := insert (generateCacheKey email subject body) (emailCache s)\<rparr>,
           rateLimitEvents))
   \<and> (sentEmails s < rateLimit s \<longrightarrow>
        fst (sendEmail s email subject body) =
          (let r = retryLoop
                     (s\<lparr>emailCache := insert (generateCacheKey email subject body) (emailCache s),
                        sentEmails := sentEmails s + 1\<rparr>) email subject body 1
           in if fst r then fst (snd r) else switchProvider (fst (snd r))))
   \<and> sendEmail (fst (run (fst (sendEmail s email subject body)) ops)) email subject body =
       (fst (run (fst (sendEmail s email subject body)) ops), duplicateEvents email subject body)"
proof -
  have seen: "generateCacheKey email subject body \<in> emailCache (fst (sendEmail s email subject body))"
    by (simp add: sendEmail_emailCache)
  then have "generateCacheKey email subject body \<in>
      emailCache (fst (run (fst (sendEmail s email subject body)) ops))"
    using run_emailCache_mono by blast
  then have later: "sendEmail (fst (run (fst (sendEmail s email subject body)) ops)) email subject body =
       (fst (run (fst (sendEmail s email subject body)) ops), duplicateEvents email subject body)"
    by (rule sendEmail_cached)
  have limited: "rateLimit s \<le> sentEmails s \<longrightarrow>
        sendEmail s email subject body =
          (s\<lparr>emailCache := insert (generateCacheKey email subject body) (emailCache s)\<rparr>,
           rateLimitEvents)"
    using assms by (simp add: sendEmail_unfold)
  have loop: "sentEmails s < rateLimit s \<longrightarrow>
        fst (sendEmail s email subject body) =
          (let r = retryLoop
                     (s\<lparr>emailCache := insert (generateCacheKey email subject body) (emailCache s),
                        sentEmails := sentEmails s + 1\<rparr>) email subject body 1
           in if fst r then fst (snd r) else switchProvider (fst (snd r)))"
    using assms by (simp add: sendEmail_unfold Let_def)
  from seen limited loop later show ?thesis by blast
qed

text \<open>The witness: a rate-limited call (the counter already at the limit), followed by
  a window reset and the same message again; and a call whose three attempts all
  fail, followed by the same message again.\<close>

theorem fingerprint_recorded_first_witness:
  "generateCacheKey ''a@x.com'' ''s'' ''b'' \<notin>
     emailCache ((newEmailService bothWorking)\<lparr>sentEmails := 2\<rparr>)
   \<and> rateLimit ((newEmailService bothWorking)\<lparr>sentEmails := 2\<rparr>)
        \<le> sentEmails ((newEmailService bothWorking)\<lparr>sentEmails := 2\<rparr>)
   \<and> sendEmail ((newEmailService bothWorking)\<lparr>sentEmails := 2\<rparr>) ''a@x.com'' ''s'' ''b'' =
       ((newEmailService bothWorking)\<lparr>sentEmails := 2, emailCache := {''a@x.com:s:b''}\<rparr>,
        [UpdateStatus RateLimitExceeded True 3000, Log LogRateLimit])
   \<and> snd (sendEmail
        (fst (run (fst (sendEmail ((newEmailService bothWorking)\<lparr>sentEmails := 2\<rparr>)
                          ''a@x.com'' ''s'' ''b'')) [WindowReset]))
        ''a@x.com'' ''s'' ''b'') =
       [UpdateStatus DuplicateDetected True 3000, Log (LogDuplicate ''a@x.com:s:b'')]
   \<and> generateCacheKey ''a@x.com'' ''s'' ''b'' \<notin> emailCache (newEmailService failingThenWorking)
   \<and> sentEmails (newEmailService failingThenWorking)
        < rateLimit (newEmailService failingThenWorking)
   \<and> generateCacheKey ''a@x.com'' ''s'' ''b'' \<in>
       emailCache (fst (sendEmail (newEmailService failingThenWorking) ''a@x.com'' ''s'' ''b''))
   \<and> snd (sendEmail
        (fst (run (fst (sendEmail (newEmailService failingThenWorking) ''a@x.com'' ''s'' ''b''))
               []))
        ''a@x.com'' ''s'' ''b'') =
       [UpdateStatus DuplicateDetected True 3000, Log (LogDuplicate ''a@x.com:s:b'')]"
proof -
  have h1: "generateCacheKey ''a@x.com'' ''s'' ''b'' \<notin>
     emailCache ((newEmailService bothWorking)\<lparr>sentEmails := 2\<rparr>)"
    by (simp add: constructor_def)
  have h2: "rateLimit ((newEmailService bothWorking)\<lparr>sentEmails := 2\<rparr>)
        \<le> sentEmails ((newEmailService bothWorking)\<lparr>sentEmails := 2\<rparr>)"
    by (simp add: constructor_def)
  have h3: "generateCacheKey ''a@x.com'' ''s'' ''b'' \<notin>
     emailCache (newEmailService failingThenWorking)"
    by (simp add: constructor_def)
  have h4: "sentEmails (newEmailService failingThenWorking)
        < rateLimit (newEmailService failingThenWorking)"
    by (simp add: constructor_def)
  have k: "generateCacheKey ''a@x.com'' ''s'' ''b'' = ''a@x.com:s:b''"
    by (simp add: generateCacheKey_def)
  note limited = fingerprint_recorded_first [OF h1, of "[WindowReset]"]
  note failing = fingerprint_recorded_first [OF h3, of "[]"]
  from limited h2 have
    "sendEmail ((newEmailService bothWorking)\<lparr>sentEmails := 2\<rparr>) ''a@x.com'' ''s'' ''b'' =
       (((newEmailService bothWorking)\<lparr>sentEmails := 2\<rparr>)
          \<lparr>emailCache := insert (generateCacheKey ''a@x.com'' ''s'' ''b'')
             (emailCache ((newEmailService bothWorking)\<lparr>sentEmails := 2\<rparr>))\<rparr>,
        rateLimitEvents)"
    by blast
  then have c1:
    "sendEmail ((newEmailService bothWorking)\<lparr>sentEmails := 2\<rparr>) ''a@x.com'' ''s'' ''b'' =
       ((newEmailService bothWorking)\<lparr>sentEmails := 2, emailCache := {''a@x.com:s:b''}\<rparr>,
        [UpdateStatus RateLimitExceeded True 3000, Log LogRateLimit])"
    by (simp add: k constructor_def rateLimitEvents_def)
  from limited have
    "snd (sendEmail
        (fst (run (fst (sendEmail ((newEmailService bothWorking)\<lparr>sentEmails := 2\<rparr>)
                          ''a@x.com'' ''s'' ''b'')) [WindowReset]))
        ''a@x.com'' ''s'' ''b'') = duplicateEvents ''a@x.com'' ''s'' ''b''"
    by (simp only: snd_conv)
  then have c2:
    "snd (sendEmail
        (fst (run (fst (sendEmail ((newEmailService bothWorking)\<lparr>sentEmails := 2\<rparr>)
                          ''a@x.com'' ''s'' ''b'')) [WindowReset]))
        ''a@x.com'' ''s'' ''b'') =
       [UpdateStatus DuplicateDetected True 3000, Log (LogDuplicate ''a@x.com:s:b'')]"
    by (simp only: duplicateEvents_def k)
  from failing have c3: "generateCacheKey ''a@x.com'' ''s'' ''b'' \<in>
       emailCache (fst (sendEmail (newEmailService failingThenWorking) ''a@x.com'' ''s'' ''b''))"
    by blast
  from failing have
    "snd (sendEmail
        (fst (run (fst (sendEmail (newEmailService failingThenWorking) ''a@x.com'' ''s'' ''b''))
               []))
        ''a@x.com'' ''s'' ''b'') = duplicateEvents ''a@x.com'' ''s'' ''b''"
    by (simp only: snd_conv)
  then have c4:
    "snd (sendEmail
        (fst (run (fst (sendEmail (newEmailService failingThenWorking) ''a@x.com'' ''s'' ''b''))
               []))
        ''a@x.com'' ''s'' ''b'') =
       [UpdateStatus DuplicateDetected True 3000, Log (LogDuplicate ''a@x.com:s:b'')]"
    by (simp only: duplicateEvents_def k)
  from h1 h2 c1 c2 h3 h4 c3 c4 show ?thesis by blast
qed

section \<open>The rate counter\<close>

text \<open>
  Claim C6. A call of \<open>sendEmail\<close> leaves \<open>sentEmails\<close> as it was or, only when it was
  strictly below \<open>rateLimit\<close>, adds one; it never lowers it and never changes
  \<open>rateLimit\<close>. The timer callback is the only operation that sets the counter to 0.
  So a counter that is at most \<open>rateLimit\<close> stays so under every sequence of calls and
  timer firings, and it is so in every state reached from a newly constructed service.
\<close>

theorem sentEmails_bounded:
  "(sentEmails (fst (sendEmail s email subject body)) = sentEmails s
      \<or> (sentEmails s < rateLimit s
          \<and> sentEmails (fst (sendEmail s email subject body)) = sentEmails s + 1))
   \<and> sentEmails s \<le> sentEmails (fst (sendEmail s email subject body))
   \<and> rateLimit (fst (sendEmail s email subject body)) = rateLimit s
   \<and> sentEmails (startRateLimitWindow_callback s) = 0
   \<and> (sentEmails s \<le> rateLimit s \<longrightarrow>
        sentEmails (fst (run s ops)) \<le> rateLimit (fst (run s ops)))
   \<and> sentEmails (fst (run (newEmailService ps) ops)) \<le> rateLimit (newEmailService ps)"
proof -
  have "sentEmails (newEmailService ps) \<le> rateLimit (newEmailService ps)"
    by (simp add: constructor_def)
  then have "sentEmails (fst (run (newEmailService ps) ops)) \<le> rateLimit (newEmailService ps)"
    by (rule run_sentEmails_le)
  then show ?thesis
    using run_sentEmails_le [of s ops]
    by (simp add: sendEmail_sentEmails)
qed

text \<open>The witness: three messages in one window, a reset, and a fourth message.\<close>

theorem sentEmails_bounded_witness:
  "sentEmails (newEmailService bothWorking) \<le> rateLimit (newEmailService bothWorking)
   \<and> sentEmails
        (fst (run (newEmailService bothWorking)
               [SendEmail ''a'' ''s'' ''b'', SendEmail ''c'' ''s'' ''b'',
                SendEmail ''e'' ''s'' ''b'', WindowReset, SendEmail ''g'' ''s'' ''b'']))
       \<le> rateLimit
        (fst (run (newEmailService bothWorking)
               [SendEmail ''a'' ''s'' ''b'', SendEmail ''c'' ''s'' ''b'',
                SendEmail ''e'' ''s'' ''b'', WindowReset, SendEmail ''g'' ''s'' ''b'']))
   \<and> sentEmails
        (fst (run (newEmailService bothWorking)
               [SendEmail ''a'' ''s'' ''b'', SendEmail ''c'' ''s'' ''b'',
                SendEmail ''e'' ''s'' ''b''])) = 2
   \<and> sentEmails
        (fst (run (newEmailService bothWorking)
               [SendEmail ''a'' ''s'' ''b'', SendEmail ''c'' ''s'' ''b'',
                SendEmail ''e'' ''s'' ''b'', WindowReset, SendEmail ''g'' ''s'' ''b''])) = 1"
proof -
  have h: "sentEmails (newEmailService bothWorking) \<le> rateLimit (newEmailService bothWorking)"
    by (simp add: constructor_def)
  from h sentEmails_bounded [of "newEmailService bothWorking" "''a''" "''s''" "''b''"
        "[SendEmail ''a'' ''s'' ''b'', SendEmail ''c'' ''s'' ''b'',
          SendEmail ''e'' ''s'' ''b'', WindowReset, SendEmail ''g'' ''s'' ''b'']"]
  have c1: "sentEmails
        (fst (run (newEmailService bothWorking)
               [SendEmail ''a'' ''s'' ''b'', SendEmail ''c'' ''s'' ''b'',
                SendEmail ''e'' ''s'' ''b'', WindowReset, SendEmail ''g'' ''s'' ''b'']))
       \<le> rateLimit
        (fst (run (newEmailService bothWorking)
               [SendEmail ''a'' ''s'' ''b'', SendEmail ''c'' ''s'' ''b'',
                SendEmail ''e'' ''s'' ''b'', WindowReset, SendEmail ''g'' ''s'' ''b'']))"
    by blast
  have c2: "sentEmails
        (fst (run (newEmailService bothWorking)
               [SendEmail ''a'' ''s'' ''b'', SendEmail ''c'' ''s'' ''b'',
                SendEmail ''e'' ''s'' ''b''])) = 2"
    by (simp add: Let_def sendEmail_sentEmails sendEmail_emailCache generateCacheKey_def
        constructor_def)
  have c3: "sentEmails
        (fst (run (newEmailService bothWorking)
               [SendEmail ''a'' ''s'' ''b'', SendEmail ''c'' ''s'' ''b'',
                SendEmail ''e'' ''s'' ''b'', WindowReset, SendEmail ''g'' ''s'' ''b''])) = 1"
    by (simp add: Let_def sendEmail_sentEmails sendEmail_emailCache generateCacheKey_def
        constructor_def)
  from h c1 c2 c3 show ?thesis by blast
qed

section \<open>Construction\<close>

text \<open>
  Claim C8, as stated: constructing the service with an empty provider list is
  rejected. The constructor of the source checks nothing: for the empty list it returns
  a service whose roster is empty.
\<close>

theorem constructor_accepts_empty_roster:
  "\<not> isl (constructor []) \<and> providers (projr (constructor [])) = []"
  by (simp add: constructor_def)

text \<open>
  Claim C8, amended. The constructor performs no validation: it returns a service for
  every provider list, the empty one included, holding the list as given, with the
  index at 0, three retries, a base delay of 1000 ms, a rate limit of 2, an empty cache
  and the counter at 0.
\<close>

theorem constructor_never_rejects:
  "\<not> isl (constructor ps)
   \<and> constructor ps =
       Inr \<lparr> providers = ps, currentProviderIndex = Num 0, maxRetries = 3,
             retryDelay = 1000, rateLimit = 2, emailCache = {}, sentEmails = 0 \<rparr>
   \<and> providers (newEmailService ps) = ps
   \<and> currentProviderIndex (newEmailService ps) = Num 0
   \<and> emailCache (newEmailService ps) = {}
   \<and> sentEmails (newEmailService ps) = 0"
  by (simp add: constructor_def)

section \<open>Provider calls per message\<close>

text \<open>
  Claim C9. Over any sequence of \<open>sendEmail\<close> calls and timer firings on one service,
  the provider calls made with a given triple of recipient, subject and body number at
  most \<open>maxRetries\<close>, which is 3 for a constructed service. The reason is the one the
  claim gives: when the retry loop of a call runs out of attempts, the events of the
  call are those of the loop, the switch, and the duplicate branch taken by the recursive
  call.
\<close>

theorem provider_calls_per_message_bounded:
  "length (filter (isInvokeOf email subject body) (snd (run s ops))) \<le> maxRetries s
   \<and> length (filter (isInvokeOf email subject body) (snd (run (newEmailService ps) ops))) \<le> 3
   \<and> (generateCacheKey email subject body \<notin> emailCache s \<and> sentEmails s < rateLimit s
        \<and> \<not> fst (retryLoop
                   (s\<lparr>emailCache := insert (generateCacheKey email subject body) (emailCache s),
                      sentEmails := sentEmails s + 1\<rparr>) email subject body 1)
      \<longrightarrow> snd (sendEmail s email subject body) =
            snd (snd (retryLoop
                   (s\<lparr>emailCache := insert (generateCacheKey email subject body) (emailCache s),
                      sentEmails := sentEmails s + 1\<rparr>) email subject body 1))
            @ [UpdateStatus SwitchedProvider True 3000, Log LogSwitched]
            @ duplicateEvents email subject body)"
proof -
  have "length (filter (isInvokeOf email subject body) (snd (run (newEmailService ps) ops)))
          \<le> maxRetries (newEmailService ps)"
    by (rule run_invokes)
  then have "length (filter (isInvokeOf email subject body) (snd (run (newEmailService ps) ops))) \<le> 3"
    by (simp add: constructor_def)
  then show ?thesis
    using run_invokes [of email subject body s ops]
    by (simp add: sendEmail_unfold Let_def)
qed

text \<open>The witness: the first provider fails three times; the same message is then sent
  three more times, once after a window reset. Three provider calls in all.\<close>

theorem provider_calls_per_message_bounded_witness:
  "generateCacheKey ''a@x.com'' ''s'' ''b'' \<notin> emailCache (newEmailService failingThenWorking)
   \<and> sentEmails (newEmailService failingThenWorking)
        < rateLimit (newEmailService failingThenWorking)
   \<and> \<not> fst (retryLoop
        ((newEmailService failingThenWorking)
           \<lparr>emailCache := insert (generateCacheKey ''a@x.com'' ''s'' ''b'')
              (emailCache (newEmailService failingThenWorking)),
            sentEmails := sentEmails (newEmailService failingThenWorking) + 1\<rparr>)
        ''a@x.com'' ''s'' ''b'' 1)
   \<and> snd (sendEmail (newEmailService failingThenWorking) ''a@x.com'' ''s'' ''b'') =
       snd (snd (retryLoop
        ((newEmailService failingThenWorking)
           \<lparr>emailCache := insert (generateCacheKey ''a@x.com'' ''s'' ''b'')
              (emailCache (newEmailService failingThenWorking)),
            sentEmails := sentEmails (newEmailService failingThenWorking) + 1\<rparr>)
        ''a@x.com'' ''s'' ''b'' 1))
       @ [UpdateStatus SwitchedProvider True 3000, Log LogSwitched]
       @ duplicateEvents ''a@x.com'' ''s'' ''b''
   \<and> length (filter (isInvokeOf ''a@x.com'' ''s'' ''b'')
        (snd (run (newEmailService failingThenWorking)
               [SendEmail ''a@x.com'' ''s'' ''b'', SendEmail ''a@x.com'' ''s'' ''b'',
                WindowReset, SendEmail ''a@x.com'' ''s'' ''b'']))) = 3"
proof -
  have h1: "generateCacheKey ''a@x.com'' ''s'' ''b'' \<notin>
      emailCache (newEmailService failingThenWorking)"
    by (simp add: constructor_def)
  have h2: "sentEmails (newEmailService failingThenWorking)
        < rateLimit (newEmailService failingThenWorking)"
    by (simp add: constructor_def)
  have h3: "\<not> fst (retryLoop
        ((newEmailService failingThenWorking)
           \<lparr>emailCache := insert (generateCacheKey ''a@x.com'' ''s'' ''b'')
              (emailCache (newEmailService failingThenWorking)),
            sentEmails := sentEmails (newEmailService failingThenWorking) + 1\<rparr>)
        ''a@x.com'' ''s'' ''b'' 1)"
    by (simp add: eval_defs)
  from h1 h2 h3
    provider_calls_per_message_bounded [of "''a@x.com''" "''s''" "''b''"
      "newEmailService failingThenWorking" "[]" "[]"]
  have c1: "snd (sendEmail (newEmailService failingThenWorking) ''a@x.com'' ''s'' ''b'') =
       snd (snd (retryLoop
        ((newEmailService failingThenWorking)
           \<lparr>emailCache := insert (generateCacheKey ''a@x.com'' ''s'' ''b'')
              (emailCache (newEmailService failingThenWorking)),
            sentEmails := sentEmails (newEmailService failingThenWorking) + 1\<rparr>)
        ''a@x.com'' ''s'' ''b'' 1))
       @ [UpdateStatus SwitchedProvider True 3000, Log LogSwitched]
       @ duplicateEvents ''a@x.com'' ''s'' ''b''"
    by blast
  have c2: "length (filter (isInvokeOf ''a@x.com'' ''s'' ''b'')
        (snd (run (newEmailService failingThenWorking)
               [SendEmail ''a@x.com'' ''s'' ''b'', SendEmail ''a@x.com'' ''s'' ''b'',
                WindowReset, SendEmail ''a@x.com'' ''s'' ''b'']))) = 3"
    by (simp add: eval_defs)
  from h1 h2 h3 c1 c2 show ?thesis by blast
qed

section \<open>The cache key\<close>

text \<open>
  Claim C10. The key is the three fields joined by a fixed separator (\<open>:\<close> in
  \<open>generateCacheKey\<close>, \<open>-\<close> in the inline key of \<open>emailService.js\<close>), so equal fields give
  equal keys. Two different messages whose fields move the separator across a field
  boundary have the same key. Whenever two messages have the same key, sending the
  second after the first takes the duplicate branch: no provider call is made for it.
\<close>

theorem cacheKey_collision:
  "generateCacheKey email subject body = email @ '':'' @ subject @ '':'' @ body
   \<and> ((email, subject, body) = (email', subject', body') \<longrightarrow>
        generateCacheKey email subject body = generateCacheKey email' subject' body')
   \<and> (''a:b'', ''c'', ''d'') \<noteq> (''a'', ''b:c'', ''d'')
   \<and> generateCacheKey ''a:b'' ''c'' ''d'' = generateCacheKey ''a'' ''b:c'' ''d''
   \<and> cacheKey_inline ''a-b'' ''c'' ''d'' = cacheKey_inline ''a'' ''b-c'' ''d''
   \<and> (generateCacheKey email subject body = generateCacheKey email' subject' body' \<longrightarrow>
        sendEmail (fst (sendEmail s email subject body)) email' subject' body' =
          (fst (sendEmail s email subject body), duplicateEvents email' subject' body')
        \<and> filter isInvoke (duplicateEvents email' subject' body') = [])"
proof -
  have "sendEmail (fst (sendEmail s email subject body)) email' subject' body' =
          (fst (sendEmail s email subject body), duplicateEvents email' subject' body')"
    if "generateCacheKey email subject body = generateCacheKey email' subject' body'"
  proof -
    have "generateCacheKey email' subject' body' \<in> emailCache (fst (sendEmail s email subject body))"
      using that by (simp add: sendEmail_emailCache)
    then show ?thesis by (rule sendEmail_cached)
  qed
  then show ?thesis
    by (auto simp add: generateCacheKey_def cacheKey_inline_def)
qed

text \<open>The witness: the same message twice, and the colliding pair, on a service whose
  providers always succeed.\<close>

theorem cacheKey_collision_witness:
  "(''a'', ''s'', ''b'') = (''a'', ''s'', ''b'')
   \<and> generateCacheKey ''a'' ''s'' ''b'' = generateCacheKey ''a'' ''s'' ''b''
   \<and> (''a:b'', ''c'', ''d'') \<noteq> (''a'', ''b:c'', ''d'')
   \<and> generateCacheKey ''a:b'' ''c'' ''d'' = generateCacheKey ''a'' ''b:c'' ''d''
   \<and> snd (sendEmail (newEmailService bothWorking) ''a:b'' ''c'' ''d'') =
       [Invoke 0 ''a:b'' ''c'' ''d'', UpdateStatus (SentVia ''Provider1'') False 2000,
        Log (LogSent ''a:b'' 1)]
   \<and> sendEmail (fst (sendEmail (newEmailService bothWorking) ''a:b'' ''c'' ''d''))
        ''a'' ''b:c'' ''d'' =
       (fst (sendEmail (newEmailService bothWorking) ''a:b'' ''c'' ''d''),
        duplicateEvents ''a'' ''b:c'' ''d'')
   \<and> filter isInvoke (duplicateEvents ''a'' ''b:c'' ''d'') = []"
proof -
  have h1: "(''a'', ''s'', ''b'') = (''a'', ''s'', ''b'')" ..
  have h2: "generateCacheKey ''a:b'' ''c'' ''d'' = generateCacheKey ''a'' ''b:c'' ''d''"
    by (simp add: generateCacheKey_def)
  from h1 cacheKey_collision [of "''a''" "''s''" "''b''" "''a''" "''s''" "''b''"]
  have c0: "generateCacheKey ''a'' ''s'' ''b'' = generateCacheKey ''a'' ''s'' ''b''"
    by blast
  note c = cacheKey_collision [of "''a:b''" "''c''" "''d''" "''a''" "''b:c''" "''d''"
      "newEmailService bothWorking"]
  from c have c1: "(''a:b'', ''c'', ''d'') \<noteq> (''a'', ''b:c'', ''d'')"
    by blast
  from c h2 have c2:
    "sendEmail (fst (sendEmail (newEmailService bothWorking) ''a:b'' ''c'' ''d''))
        ''a'' ''b:c'' ''d'' =
       (fst (sendEmail (newEmailService bothWorking) ''a:b'' ''c'' ''d''),
        duplicateEvents ''a'' ''b:c'' ''d'')"
    and c3: "filter isInvoke (duplicateEvents ''a'' ''b:c'' ''d'') = []"
    by blast+
  have c4: "snd (sendEmail (newEmailService bothWorking) ''a:b'' ''c'' ''d'') =
       [Invoke 0 ''a:b'' ''c'' ''d'', UpdateStatus (SentVia ''Provider1'') False 2000,
        Log (LogSent ''a:b'' 1)]"
    by (simp add: eval_defs)
  from h1 c0 c1 h2 c4 c2 c3 show ?thesis by blast
qed

section \<open>Rate limiting\<close>

lemma switchProvider_validIndex: "validIndex s \<Longrightarrow> validIndex (switchProvider s)"
  by (auto simp add: validIndex_def switchProvider_def split: jsnum.splits)

lemma retryLoop_validIndex:
  "validIndex (fst (snd (retryLoop s email subject body attempt))) = validIndex s"
  by (simp add: validIndex_def split: jsnum.split)

lemma sendEmail_validIndex:
  "validIndex s \<Longrightarrow> validIndex (fst (sendEmail s email subject body))"
proof -
  assume v: "validIndex s"
  let ?s2 = "s\<lparr>emailCache := insert (generateCacheKey email subject body) (emailCache s),
                sentEmails := sentEmails s + 1\<rparr>"
  have v1: "validIndex (s\<lparr>emailCache := insert (generateCacheKey email subject body)
                             (emailCache s)\<rparr>)"
    using v by (simp add: validIndex_def split: jsnum.splits)
  have "validIndex ?s2" using v by (simp add: validIndex_def split: jsnum.splits)
  then have v2: "validIndex (fst (snd (retryLoop ?s2 email subject body 1)))"
    by (simp only: retryLoop_validIndex)
  then have v3: "validIndex (switchProvider (fst (snd (retryLoop ?s2 email subject body 1))))"
    by (rule switchProvider_validIndex)
  show ?thesis
    using v v1 v2 v3 by (simp add: sendEmail_unfold Let_def)
qed

lemma retryLoop_dispatched:
  assumes "validIndex s" and "1 \<le> maxRetries s"
  shows "dispatched (snd (snd (retryLoop s email subject body 1)))"
proof -
  from assms(1) obtain i where i: "currentProviderIndex s = Num i" "i < length (providers s)"
    by (auto simp add: validIndex_def split: jsnum.splits)
  then have "snd (snd (trySend s email subject body)) = [Invoke i email subject body]"
    by (simp add: trySend_def currentProvider_def)
  with assms(2) show ?thesis
    by (subst retryLoop.simps) (simp add: Let_def dispatched_def)
qed

lemma sendEmail_dispatched:
  assumes "generateCacheKey email subject body \<notin> emailCache s"
    and "sentEmails s < rateLimit s"
    and "validIndex s" and "1 \<le> maxRetries s"
  shows "dispatched (snd (sendEmail s email subject body))"
proof -
  let ?s2 = "s\<lparr>emailCache := insert (generateCacheKey email subject body) (emailCache s),
                sentEmails := sentEmails s + 1\<rparr>"
  have "validIndex ?s2" and "1 \<le> maxRetries ?s2"
    using assms(3,4) by (simp_all add: validIndex_def split: jsnum.splits)
  then have "dispatched (snd (snd (retryLoop ?s2 email subject body 1)))"
    by (rule retryLoop_dispatched)
  then show ?thesis
    using assms(1,2) by (simp add: sendEmail_unfold Let_def dispatched_def)
qed

lemma sendEmail_rateLimited:
  assumes "generateCacheKey email subject body \<notin> emailCache s"
    and "rateLimit s \<le> sentEmails s"
  shows "snd (sendEmail s email subject body) = rateLimitEvents"
  using assms by (simp add: sendEmail_unfold)

lemma sendAll_snoc:
  "sendAll s (ms @ [(email, subject, body)]) =
     (fst (sendEmail (fst (sendAll s ms)) email subject body),
      snd (sendAll s ms) @ [snd (sendEmail (fst (sendAll s ms)) email subject body)])"
  by (induction s ms rule: sendAll.induct) (simp_all add: Let_def)

lemma sendAll_fields [simp]:
  "maxRetries (fst (sendAll s ms)) = maxRetries s"
  "rateLimit (fst (sendAll s ms)) = rateLimit s"
  "length (snd (sendAll s ms)) = length ms"
  by (induction s ms rule: sendAll.induct) (simp_all add: Let_def)

lemma sendAll_validIndex: "validIndex s \<Longrightarrow> validIndex (fst (sendAll s ms))"
  by (induction s ms rule: sendAll.induct) (simp_all add: Let_def sendEmail_validIndex)

lemma sendAll_emailCache:
  "emailCache (fst (sendAll s ms)) = emailCache s \<union> cacheKeyOf ` set ms"
  by (induction s ms rule: sendAll.induct)
     (auto simp add: Let_def sendEmail_emailCache cacheKeyOf_def)

text \<open>As long as the counter has room for all of them, messages with fresh, pairwise
  different keys are all dispatched, and each one adds one to the counter.\<close>

lemma sendAll_within_limit:
  assumes "sentEmails s + length ms \<le> rateLimit s"
    and "distinct (map cacheKeyOf ms)"
    and "cacheKeyOf ` set ms \<inter> emailCache s = {}"
    and "validIndex s" and "1 \<le> maxRetries s"
  shows "sentEmails (fst (sendAll s ms)) = sentEmails s + length ms
         \<and> (\<forall>k<length ms. dispatched (snd (sendAll s ms) ! k))"
  using assms
proof (induction s ms rule: sendAll.induct)
  case (1 s)
  then show ?case by simp
next
  case (2 s email subject body ms)
  let ?s1 = "fst (sendEmail s email subject body)"
  have fresh: "generateCacheKey email subject body \<notin> emailCache s"
    using "2.prems"(3) by (auto simp add: cacheKeyOf_def)
  have room: "sentEmails s < rateLimit s"
    using "2.prems"(1) by simp
  have here: "dispatched (snd (sendEmail s email subject body))"
    using fresh room "2.prems"(4,5) by (rule sendEmail_dispatched)
  have cnt: "sentEmails ?s1 = sentEmails s + 1"
    using fresh room by (simp add: sendEmail_sentEmails)
  have p1: "sentEmails ?s1 + length ms \<le> rateLimit ?s1"
    using "2.prems"(1) cnt by simp
  have p2: "distinct (map cacheKeyOf ms)"
    using "2.prems"(2) by simp
  have p3: "cacheKeyOf ` set ms \<inter> emailCache ?s1 = {}"
    using "2.prems"(2,3) by (auto simp add: sendEmail_emailCache cacheKeyOf_def)
  have p4: "validIndex ?s1"
    using "2.prems"(4) by (rule sendEmail_validIndex)
  have p5: "1 \<le> maxRetries ?s1"
    using "2.prems"(5) by simp
  from "2.IH" [OF refl p1 p2 p3 p4 p5] have
    ih1: "sentEmails (fst (sendAll ?s1 ms)) = sentEmails ?s1 + length ms"
    and ih2: "\<forall>k<length ms. dispatched (snd (sendAll ?s1 ms) ! k)"
    by blast+
  have "sentEmails (fst (sendAll s ((email, subject, body) # ms))) =
          sentEmails s + length ((email, subject, body) # ms)"
    using ih1 cnt by (simp add: Let_def)
  moreover have "\<forall>k<length ((email, subject, body) # ms).
          dispatched (snd (sendAll s ((email, subject, body) # ms)) ! k)"
  proof (intro allI impI)
    fix k assume "k < length ((email, subject, body) # ms)"
    then show "dispatched (snd (sendAll s ((email, subject, body) # ms)) ! k)"
      using here ih2 by (cases k) (simp_all add: Let_def)
  qed
  ultimately show ?case by blast
qed

text \<open>
  Claim C5, as stated: of \<open>N + 1\<close> distinct messages in one window the first \<open>N\<close> are
  dispatched and the last one is rate-limited. With \<open>rateLimit = 2\<close> and three pairwise
  different messages of which the first two have the same key, the second is
  suppressed as a duplicate and uses no slot of the window, so the third is dispatched
  and delivered, not rate-limited.
\<close>

theorem rate_limit_distinct_messages_counterexample:
  "distinct [(''a:b'', ''c'', ''d''), (''a'', ''b:c'', ''d''), (''x'', ''y'', ''z'')]
   \<and> rateLimit (newEmailService bothWorking) = 2
   \<and> sentEmails (newEmailService bothWorking) = 0
   \<and> emailCache (newEmailService bothWorking) = {}
   \<and> snd (sendAll (newEmailService bothWorking)
            [(''a:b'', ''c'', ''d''), (''a'', ''b:c'', ''d''), (''x'', ''y'', ''z'')]) ! 1 =
       [UpdateStatus DuplicateDetected True 3000, Log (LogDuplicate ''a:b:c:d'')]
   \<and> snd (sendAll (newEmailService bothWorking)
            [(''a:b'', ''c'', ''d''), (''a'', ''b:c'', ''d''), (''x'', ''y'', ''z'')]) ! 2 =
       [Invoke 0 ''x'' ''y'' ''z'', UpdateStatus (SentVia ''Provider1'') False 2000,
        Log (LogSent ''x'' 1)]
   \<and> snd (sendAll (newEmailService bothWorking)
            [(''a:b'', ''c'', ''d''), (''a'', ''b:c'', ''d''), (''x'', ''y'', ''z'')]) ! 2 \<noteq>
       rateLimitEvents"
  by (simp add: eval_defs)

text \<open>
  Claim C5, amended. Let the window start with the counter at 0 on a service whose
  index names a provider and which makes at least one attempt, and let \<open>rateLimit = N\<close>.
  Of \<open>N + 1\<close> messages whose keys are pairwise different and not yet cached, sent one
  after the other with no reset between them, the first \<open>N\<close> each reach a provider call
  and the last one gets exactly the rate-limit events, with no provider call. After the
  reset, when \<open>N\<close> is positive, any message whose key is not cached reaches a provider
  call again.
\<close>

theorem rate_limit_window:
  assumes "rateLimit s = N" and "sentEmails s = 0"
    and "length ms = N + 1"
    and "distinct (map cacheKeyOf ms)"
    and "cacheKeyOf ` set ms \<inter> emailCache s = {}"
    and "validIndex s" and "1 \<le> maxRetries s"
  shows "(\<forall>k<N. dispatched (snd (sendAll s ms) ! k))
   \<and> snd (sendAll s ms) ! N = rateLimitEvents
   \<and> filter isInvoke (snd (sendAll s ms) ! N) = []
   \<and> sentEmails (fst (sendAll s ms)) = N
   \<and> sentEmails (startRateLimitWindow_callback (fst (sendAll s ms))) = 0
   \<and> (0 < N \<and> generateCacheKey email subject body \<notin> emailCache (fst (sendAll s ms)) \<longrightarrow>
        dispatched
          (snd (sendEmail (startRateLimitWindow_callback (fst (sendAll s ms)))
                  email subject body)))"
proof -
  from assms(3) have ne: "ms \<noteq> []" by auto
  obtain e su b where lst: "last ms = (e, su, b)" by (cases "last ms")
  let ?front = "butlast ms"
  have split: "ms = ?front @ [(e, su, b)]"
    using ne lst by (metis append_butlast_last_id)
  have len: "length ?front = N" using assms(3) by simp
  have d: "distinct (map cacheKeyOf ?front)"
    using assms(4) distinct_butlast [of "map cacheKeyOf ms"] by (simp add: map_butlast)
  have fr: "cacheKeyOf ` set ?front \<inter> emailCache s = {}"
    using assms(5) by (auto dest: in_set_butlastD)
  have room: "sentEmails s + length ?front \<le> rateLimit s"
    using assms(1,2) len by simp
  from sendAll_within_limit [OF room d fr assms(6,7)] have
    cnt: "sentEmails (fst (sendAll s ?front)) = N"
    and disp: "\<forall>k<N. dispatched (snd (sendAll s ?front) ! k)"
    using assms(2) len by simp_all
  have "distinct (map cacheKeyOf (?front @ [(e, su, b)]))"
    using assms(4) split by simp
  then have "cacheKeyOf (e, su, b) \<notin> cacheKeyOf ` set ?front"
    by simp
  moreover have "cacheKeyOf (e, su, b) \<notin> emailCache s"
    using assms(5) ne lst by (metis disjoint_iff imageI last_in_set)
  ultimately have fresh: "generateCacheKey e su b \<notin> emailCache (fst (sendAll s ?front))"
    by (simp add: sendAll_emailCache cacheKeyOf_def)
  have full: "rateLimit (fst (sendAll s ?front)) \<le> sentEmails (fst (sendAll s ?front))"
    using cnt assms(1) by simp
  have lastev: "snd (sendEmail (fst (sendAll s ?front)) e su b) = rateLimitEvents"
    using fresh full by (rule sendEmail_rateLimited)
  have all: "sendAll s ms =
      (fst (sendEmail (fst (sendAll s ?front)) e su b),
       snd (sendAll s ?front) @ [snd (sendEmail (fst (sendAll s ?front)) e su b)])"
    by (subst split) (rule sendAll_snoc)
  have c1: "\<forall>k<N. dispatched (snd (sendAll s ms) ! k)"
    using disp len by (simp add: all nth_append)
  have c2: "snd (sendAll s ms) ! N = rateLimitEvents"
    using lastev len by (simp add: all nth_append)
  have c3: "filter isInvoke (snd (sendAll s ms) ! N) = []"
    by (simp add: c2)
  have c4: "sentEmails (fst (sendAll s ms)) = N"
    using cnt fresh full by (simp add: all sendEmail_sentEmails)
  have c5: "sentEmails (startRateLimitWindow_callback (fst (sendAll s ms))) = 0"
    by simp
  have c6: "dispatched
          (snd (sendEmail (startRateLimitWindow_callback (fst (sendAll s ms)))
                  email subject body))"
    if "0 < N" and "generateCacheKey email subject body \<notin> emailCache (fst (sendAll s ms))"
  proof (rule sendEmail_dispatched)
    show "generateCacheKey email subject body \<notin>
        emailCache (startRateLimitWindow_callback (fst (sendAll s ms)))"
      using that(2) by simp
    show "sentEmails (startRateLimitWindow_callback (fst (sendAll s ms)))
        < rateLimit (startRateLimitWindow_callback (fst (sendAll s ms)))"
      using that(1) assms(1) by simp
    show "validIndex (startRateLimitWindow_callback (fst (sendAll s ms)))"
      using sendAll_validIndex [OF assms(6), of ms]
      by (simp add: validIndex_def split: jsnum.splits)
    show "1 \<le> maxRetries (startRateLimitWindow_callback (fst (sendAll s ms)))"
      using assms(7) by simp
  qed
  from c1 c2 c3 c4 c5 c6 show ?thesis by blast
qed

text \<open>The witness: the constructed service (\<open>rateLimit = 2\<close>) with three messages in
  one window, then a reset and a fourth message.\<close>

theorem rate_limit_window_witness:
  "rateLimit (newEmailService bothWorking) = 2
   \<and> sentEmails (newEmailService bothWorking) = 0
   \<and> length [(''a'', ''s'', ''b''), (''c'', ''s'', ''b''), (''e'', ''s'', ''b'')] = 2 + 1
   \<and> distinct (map cacheKeyOf [(''a'', ''s'', ''b''), (''c'', ''s'', ''b''), (''e'', ''s'', ''b'')])
   \<and> cacheKeyOf ` set [(''a'', ''s'', ''b''), (''c'', ''s'', ''b''), (''e'', ''s'', ''b'')]
        \<inter> emailCache (newEmailService bothWorking) = {}
   \<and> validIndex (newEmailService bothWorking)
   \<and> 1 \<le> maxRetries (newEmailService bothWorking)
   \<and> (0::nat) < 2
   \<and> generateCacheKey ''g'' ''s'' ''b'' \<notin>
       emailCache (fst (sendAll (newEmailService bothWorking)
          [(''a'', ''s'', ''b''), (''c'', ''s'', ''b''), (''e'', ''s'', ''b'')]))
   \<and> dispatched (snd (sendAll (newEmailService bothWorking)
          [(''a'', ''s'', ''b''), (''c'', ''s'', ''b''), (''e'', ''s'', ''b'')]) ! 0)
   \<and> dispatched (snd (sendAll (newEmailService bothWorking)
          [(''a'', ''s'', ''b''), (''c'', ''s'', ''b''), (''e'', ''s'', ''b'')]) ! 1)
   \<and> snd (sendAll (newEmailService bothWorking)
          [(''a'', ''s'', ''b''), (''c'', ''s'', ''b''), (''e'', ''s'', ''b'')]) ! 2 =
       rateLimitEvents
   \<and> dispatched
       (snd (sendEmail
          (startRateLimitWindow_callback
             (fst (sendAll (newEmailService bothWorking)
                [(''a'', ''s'', ''b''), (''c'', ''s'', ''b''), (''e'', ''s'', ''b'')])))
          ''g'' ''s'' ''b''))"
proof -
  let ?s = "newEmailService bothWorking"
  let ?ms = "[(''a'', ''s'', ''b''), (''c'', ''s'', ''b''), (''e'', ''s'', ''b'')]"
  have h1: "rateLimit ?s = 2" by (simp add: constructor_def)
  have h2: "sentEmails ?s = 0" by (simp add: constructor_def)
  have h3: "length ?ms = 2 + 1" by simp
  have h4: "distinct (map cacheKeyOf ?ms)"
    by (simp add: cacheKeyOf_def generateCacheKey_def)
  have h5: "cacheKeyOf ` set ?ms \<inter> emailCache ?s = {}"
    by (simp add: constructor_def)
  have h6: "validIndex ?s"
    by (simp add: validIndex_def constructor_def)
  have h7: "1 \<le> maxRetries ?s" by (simp add: constructor_def)
  have h8: "(0::nat) < 2" by simp
  have h9: "generateCacheKey ''g'' ''s'' ''b'' \<notin> emailCache (fst (sendAll ?s ?ms))"
    by (subst sendAll_emailCache) (simp add: cacheKeyOf_def generateCacheKey_def constructor_def)
  note w = rate_limit_window [OF h1 h2 h3 h4 h5 h6 h7, of "''g''" "''s''" "''b''"]
  from w have first: "k < 2 \<Longrightarrow> dispatched (snd (sendAll ?s ?ms) ! k)" for k
    by blast
  have c0: "dispatched (snd (sendAll ?s ?ms) ! 0)" by (rule first) simp
  have c1: "dispatched (snd (sendAll ?s ?ms) ! 1)" by (rule first) simp
  from w have c2: "snd (sendAll ?s ?ms) ! 2 = rateLimitEvents" by blast
  from w h8 h9 have c3: "dispatched
       (snd (sendEmail (startRateLimitWindow_callback (fst (sendAll ?s ?ms))) ''g'' ''s'' ''b''))"
    by blast
  from h1 h2 h3 h4 h5 h6 h7 h8 h9 c0 c1 c2 c3 show ?thesis by blast
qed

end
